theory Spec2Isabelle
  imports Complex_Main
begin

unbundle bit_operations_syntax

section \<open>The WS2812 strip controller (ws2812\_led\_control.py)\<close>

subsection \<open>Colours and the colour wheel\<close>

text \<open>
  A colour is the Python tuple \<open>(r, g, b)\<close> of unbounded integers.
\<close>

type_synonym rgb = "int \<times> int \<times> int"

text \<open>
  \<open>WS2812Controller.wheel\<close>: the two later branches first rebind \<open>pos\<close>
  (\<open>pos -= 85\<close>, \<open>pos -= 170\<close>) and then compute the triple from the new value.
\<close>

definition wheel :: "int \<Rightarrow> rgb" where
  "wheel pos =
     (if pos < 85 then (pos * 3, 255 - pos * 3, 0)
      else if pos < 170 then (let pos = pos - 85 in (255 - pos * 3, 0, pos * 3))
      else (let pos = pos - 170 in (0, pos * 3, 255 - pos * 3)))"

text \<open>
  The position expressions passed to \<open>wheel\<close> by \<open>rainbow\<close> and \<open>rainbow_cycle\<close>.
  Python's \<open>&\<close> on integers is the two's-complement conjunction, as \<open>AND\<close> on \<open>int\<close>.
  In \<open>rainbow_cycle\<close> the source writes \<open>int(i * 256 / self.led_count)\<close>: a float
  quotient truncated towards zero. It is evaluated only inside the loop over
  \<open>range(self.led_count)\<close>, where \<open>0 \<le> i < led_count\<close>, so the quotient is
  non-negative and below 256, and the integer part of its correctly rounded float value is
  the integer quotient \<open>i * 256 div led_count\<close> (for any strip of fewer than \<open>2^45\<close>
  LEDs). Whatever integer the sum is, the mask \<open>& 255\<close> is applied to it last.
\<close>

definition rainbow_pos :: "int \<Rightarrow> int \<Rightarrow> int" where
  "rainbow_pos i j = (i + j) AND 255"

definition rainbow_cycle_pos :: "int \<Rightarrow> int \<Rightarrow> int \<Rightarrow> int" where
  "rainbow_cycle_pos n i j = (i * 256 div n + j) AND 255"

text \<open>The band formula in the words of the specification, for comparison with \<open>wheel\<close>.\<close>

definition wheel_spec :: "int \<Rightarrow> rgb" where
  "wheel_spec pos =
     (if pos < 85 then (pos * 3, 255 - pos * 3, 0)
      else if 85 \<le> pos \<and> pos < 170 then (255 - (pos - 85) * 3, 0, (pos - 85) * 3)
      else (0, (pos - 170) * 3, 255 - (pos - 170) * 3))"

definition byte :: "int \<Rightarrow> bool" where
  "byte v \<longleftrightarrow> 0 \<le> v \<and> v \<le> 255"

fun valid_rgb :: "rgb \<Rightarrow> bool" where
  "valid_rgb (r, g, b) \<longleftrightarrow> byte r \<and> byte g \<and> byte b"

subsection \<open>The LED strip object of the rpi\_ws281x library\<close>

text \<open>
  The controller drives a \<open>PixelStrip\<close> object of the external rpi\_ws281x library. Of
  that object the model keeps what the controller can change: the colour buffer, the
  brightness register, and the sequence of calls made on it so far (oldest first), which
  stands for the hardware side of the strip. A packed colour value, the result of the
  library's \<open>Color(r, g, b)\<close>, has the type \<open>'c\<close>.
\<close>

datatype 'c strip_call = SetPixelColor int 'c | Show | SetBrightness int

record 'c pixel_strip =
  pixels :: "'c list"
  strip_brightness :: int
  calls :: "'c strip_call list"

text \<open>
  \<open>PixelStrip(led_count, pin, freq_hz, dma, invert, brightness, channel)\<close> followed by
  \<open>begin()\<close>: a buffer of \<open>led_count\<close> slots, each holding \<open>blank\<close>, the value the
  library fills a fresh buffer with. The brightness register of the library is an unsigned
  byte: its constructor raises \<open>OverflowError\<close> for a brightness outside \<open>0..255\<close>, and
  then no strip exists.
\<close>

datatype error = OverflowError

definition PixelStrip ::
  "'c \<Rightarrow> int \<Rightarrow> int \<Rightarrow> int \<Rightarrow> int \<Rightarrow> bool \<Rightarrow> int \<Rightarrow> int \<Rightarrow> error + 'c pixel_strip" where
  "PixelStrip blank n pin freq_hz dma invert b channel =
     (if 0 \<le> b \<and> b \<le> 255
      then Inr \<lparr>pixels = replicate (nat n) blank, strip_brightness = b, calls = []\<rparr>
      else Inl OverflowError)"

text \<open>
  \<open>strip.setPixelColor(n, color)\<close> stores the colour in slot \<open>n\<close> of the buffer. The call
  is recorded whatever the index is. What the library does with an index outside its
  buffer is not part of this repository: the model leaves the buffer as it is there, and
  the controller never makes such a call (see \<open>evolves\<close> and \<open>strip_fits\<close> below).
\<close>

definition setPixelColor :: "'c pixel_strip \<Rightarrow> int \<Rightarrow> 'c \<Rightarrow> 'c pixel_strip" where
  "setPixelColor s n col =
     s\<lparr>pixels := (if 0 \<le> n \<and> n < int (length (pixels s)) then (pixels s)[nat n := col]
                  else pixels s),
       calls := calls s @ [SetPixelColor n col]\<rparr>"

definition PixelStrip_show :: "'c pixel_strip \<Rightarrow> 'c pixel_strip" where
  "PixelStrip_show s = s\<lparr>calls := calls s @ [Show]\<rparr>"

definition setBrightness :: "'c pixel_strip \<Rightarrow> int \<Rightarrow> 'c pixel_strip" where
  "setBrightness s b = s\<lparr>strip_brightness := b, calls := calls s @ [SetBrightness b]\<rparr>"

text \<open>
  The library's \<open>Color(red, green, blue)\<close> with its default \<open>white = 0\<close>:
  \<open>(white << 24) | (red << 16) | (green << 8) | blue\<close>. The theorems below hold for
  any packing function; this one instantiates them.
\<close>

definition rpi_Color :: "int \<Rightarrow> int \<Rightarrow> int \<Rightarrow> int" where
  "rpi_Color r g b = push_bit 24 0 OR push_bit 16 r OR push_bit 8 g OR b"

fun is_Show :: "'c strip_call \<Rightarrow> bool" where
  "is_Show Show = True"
| "is_Show _ = False"

definition flushes :: "'c strip_call list \<Rightarrow> nat" where
  "flushes cs = length (filter is_Show cs)"

fun write_in_range :: "int \<Rightarrow> 'c strip_call \<Rightarrow> bool" where
  "write_in_range n (SetPixelColor i col) = (0 \<le> i \<and> i < n)"
| "write_in_range n _ = True"

definition writes_in_range :: "int \<Rightarrow> 'c strip_call list \<Rightarrow> bool" where
  "writes_in_range n cs = list_all (write_in_range n) cs"

subsection \<open>Python ranges\<close>

definition py_range :: "int \<Rightarrow> int list" where
  "py_range n = map int [0..<nat n]"

text \<open>
  \<open>range(start, stop, step)\<close>. The source uses the steps 3, 5 and -5 only; Python
  raises for step 0, which does not occur.
\<close>

function range_step :: "int \<Rightarrow> int \<Rightarrow> int \<Rightarrow> int list" where
  "range_step start stop step =
     (if 0 < step \<and> start < stop then start # range_step (start + step) stop step
      else if step < 0 \<and> stop < start then start # range_step (start + step) stop step
      else [])"
  by pat_completeness auto
termination
  by (relation "measure (\<lambda>(start, stop, step).
        if 0 < step then nat (stop - start) else nat (start - stop))") auto

declare range_step.simps [simp del]

subsection \<open>The controller\<close>

text \<open>
  The fields of \<open>WS2812Controller\<close>: \<open>led_count\<close>, \<open>brightness\<close>, the library's colour
  constructor \<open>Color\<close>, and the strip. Every method takes the controller and returns it
  updated. \<open>time.sleep\<close> changes no field and is left out; console output is left out.
\<close>

record 'c controller =
  led_count :: int
  brightness :: int
  Color :: "int \<Rightarrow> int \<Rightarrow> int \<Rightarrow> 'c"
  strip :: "'c pixel_strip"

text \<open>
  \<open>__init__\<close>. The library import supplies \<open>Color\<close> (and \<open>blank\<close>, see \<open>PixelStrip\<close>).
  The arguments are stored as given, without a clamp, and handed on to \<open>PixelStrip\<close>;
  when that raises, the exception leaves \<open>__init__\<close> and no controller is constructed.
\<close>

definition WS2812Controller ::
  "(int \<Rightarrow> int \<Rightarrow> int \<Rightarrow> 'c) \<Rightarrow> 'c \<Rightarrow> int \<Rightarrow> int \<Rightarrow> int \<Rightarrow> int \<Rightarrow> bool \<Rightarrow> int \<Rightarrow> int
     \<Rightarrow> error + 'c controller" where
  "WS2812Controller lib_Color blank n pin freq_hz dma invert b channel =
     (case PixelStrip blank n pin freq_hz dma invert b channel of
        Inl e \<Rightarrow> Inl e
      | Inr s \<Rightarrow> Inr \<lparr>led_count = n, brightness = b, Color = lib_Color, strip = s\<rparr>)"

definition set_pixel :: "'c controller \<Rightarrow> int \<Rightarrow> rgb \<Rightarrow> 'c controller" where
  "set_pixel c pixel_id color =
     (if 0 \<le> pixel_id \<and> pixel_id < led_count c
      then (case color of (r, g, b) \<Rightarrow>
              c\<lparr>strip := setPixelColor (strip c) pixel_id (Color c r g b)\<rparr>)
      else c)"

definition set_all_pixels :: "'c controller \<Rightarrow> rgb \<Rightarrow> 'c controller" where
  "set_all_pixels c color =
     (case color of (r, g, b) \<Rightarrow>
        fold (\<lambda>i c. c\<lparr>strip := setPixelColor (strip c) i (Color c r g b)\<rparr>)
          (py_range (led_count c)) c)"

definition clear :: "'c controller \<Rightarrow> 'c controller" where
  "clear c = (let c = set_all_pixels c (0, 0, 0) in c\<lparr>strip := PixelStrip_show (strip c)\<rparr>)"

definition show_strip :: "'c controller \<Rightarrow> 'c controller" where
  "show_strip c = c\<lparr>strip := PixelStrip_show (strip c)\<rparr>"

definition set_brightness :: "'c controller \<Rightarrow> int \<Rightarrow> 'c controller" where
  "set_brightness c b =
     (let c = c\<lparr>brightness := max 0 (min 255 b)\<rparr>
      in c\<lparr>strip := setBrightness (strip c) (brightness c)\<rparr>)"

definition color_wipe :: "'c controller \<Rightarrow> rgb \<Rightarrow> int \<Rightarrow> 'c controller" where
  "color_wipe c color wait_ms =
     fold (\<lambda>i c. let c = set_pixel c i color in c\<lparr>strip := PixelStrip_show (strip c)\<rparr>)
       (py_range (led_count c)) c"

definition theater_chase :: "'c controller \<Rightarrow> rgb \<Rightarrow> int \<Rightarrow> int \<Rightarrow> 'c controller" where
  "theater_chase c color wait_ms iterations =
     fold (\<lambda>j. fold (\<lambda>q c.
                 let c = fold (\<lambda>i c. set_pixel c (i + q) color)
                           (range_step 0 (led_count c) 3) c;
                     c = c\<lparr>strip := PixelStrip_show (strip c)\<rparr>
                 in fold (\<lambda>i c. set_pixel c (i + q) (0, 0, 0))
                      (range_step 0 (led_count c) 3) c)
               (py_range 3))
       (py_range iterations) c"

definition rainbow :: "'c controller \<Rightarrow> int \<Rightarrow> int \<Rightarrow> 'c controller" where
  "rainbow c wait_ms iterations =
     fold (\<lambda>j c.
             let c = fold (\<lambda>i c. set_pixel c i (wheel (rainbow_pos i j)))
                       (py_range (led_count c)) c
             in c\<lparr>strip := PixelStrip_show (strip c)\<rparr>)
       (py_range (256 * iterations)) c"

definition rainbow_cycle :: "'c controller \<Rightarrow> int \<Rightarrow> int \<Rightarrow> 'c controller" where
  "rainbow_cycle c wait_ms iterations =
     fold (\<lambda>j c.
             let c = fold (\<lambda>i c. set_pixel c i (wheel (rainbow_cycle_pos (led_count c) i j)))
                       (py_range (led_count c)) c
             in c\<lparr>strip := PixelStrip_show (strip c)\<rparr>)
       (py_range (256 * iterations)) c"

text \<open>One step of either fade loop of \<open>breathing_effect\<close>.\<close>

definition breathe_step :: "rgb \<Rightarrow> int \<Rightarrow> 'c controller \<Rightarrow> 'c controller" where
  "breathe_step color b c =
     (let c = set_brightness c b; c = set_all_pixels c color
      in c\<lparr>strip := PixelStrip_show (strip c)\<rparr>)"

definition breathing_effect :: "'c controller \<Rightarrow> rgb \<Rightarrow> int \<Rightarrow> 'c controller" where
  "breathing_effect c color cycles =
     (let c = fold (\<lambda>cycle c.
                      let c = fold (breathe_step color) (range_step 0 255 5) c
                      in fold (breathe_step color) (range_step 255 0 (- 5)) c)
                (py_range cycles) c
      in set_brightness c 255)"

subsection \<open>Routines driven by the clock and the random source\<close>

text \<open>
  \<open>random_colors\<close> and \<open>police_lights\<close> loop while \<open>time.time() - start_time < duration\<close>.
  The clock is given as the list of the successive results of \<open>time.time()\<close>: the first
  is \<open>start_time\<close>, each later one is read by one test of the loop condition. The result
  is \<open>None\<close> when the readings run out before the loop has ended. The random source is a
  sequence of draws; \<open>randint\<close> brings draw \<open>k\<close> into \<open>[lo, hi]\<close>.
\<close>

definition randint :: "(nat \<Rightarrow> int) \<Rightarrow> nat \<Rightarrow> int \<Rightarrow> int \<Rightarrow> int" where
  "randint rnd k lo hi = lo + rnd k mod (hi - lo + 1)"

definition random_frame ::
  "(nat \<Rightarrow> int) \<Rightarrow> 'c controller \<times> nat \<Rightarrow> 'c controller \<times> nat" where
  "random_frame rnd ck =
     fold (\<lambda>i (c, k).
             let color = (randint rnd k 0 255, randint rnd (k + 1) 0 255,
                          randint rnd (k + 2) 0 255)
             in (set_pixel c i color, k + 3))
       (py_range (led_count (fst ck))) ck"

fun random_colors_loop ::
  "real \<Rightarrow> real \<Rightarrow> (nat \<Rightarrow> int) \<Rightarrow> 'c controller \<times> nat \<Rightarrow> real list \<Rightarrow> 'c controller option" where
  "random_colors_loop start_time duration rnd ck [] = None"
| "random_colors_loop start_time duration rnd ck (t # ts) =
     (if t - start_time < duration
      then (case random_frame rnd ck of (c, k) \<Rightarrow>
              random_colors_loop start_time duration rnd
                (c\<lparr>strip := PixelStrip_show (strip c)\<rparr>, k) ts)
      else Some (fst ck))"

definition random_colors ::
  "'c controller \<Rightarrow> real \<Rightarrow> real list \<Rightarrow> (nat \<Rightarrow> int) \<Rightarrow> 'c controller option" where
  "random_colors c duration clock rnd =
     (case clock of [] \<Rightarrow> None
      | start_time # ts \<Rightarrow> random_colors_loop start_time duration rnd (c, 0) ts)"

definition police_round :: "'c controller \<Rightarrow> 'c controller" where
  "police_round c =
     (let c = set_all_pixels c (255, 0, 0); c = c\<lparr>strip := PixelStrip_show (strip c)\<rparr>;
          c = set_all_pixels c (0, 0, 0); c = c\<lparr>strip := PixelStrip_show (strip c)\<rparr>;
          c = set_all_pixels c (0, 0, 255); c = c\<lparr>strip := PixelStrip_show (strip c)\<rparr>;
          c = set_all_pixels c (0, 0, 0)
      in c\<lparr>strip := PixelStrip_show (strip c)\<rparr>)"

fun police_lights_loop :: "real \<Rightarrow> real \<Rightarrow> 'c controller \<Rightarrow> real list \<Rightarrow> 'c controller option" where
  "police_lights_loop start_time duration c [] = None"
| "police_lights_loop start_time duration c (t # ts) =
     (if t - start_time < duration
      then police_lights_loop start_time duration (police_round c) ts
      else Some c)"

definition police_lights :: "'c controller \<Rightarrow> real \<Rightarrow> real list \<Rightarrow> 'c controller option" where
  "police_lights c duration clock =
     (case clock of [] \<Rightarrow> None
      | start_time # ts \<Rightarrow> police_lights_loop start_time duration c ts)"

subsection \<open>Properties of a controller state\<close>

text \<open>The buffer of the strip has one slot per LED, as the constructor makes it.\<close>

definition strip_fits :: "'c controller \<Rightarrow> bool" where
  "strip_fits c \<longleftrightarrow> length (pixels (strip c)) = nat (led_count c)"

text \<open>
  The controller fields other than the pixel buffer (and the call history): the count,
  both brightness values and the colour constructor.
\<close>

definition same_settings :: "'c controller \<Rightarrow> 'c controller \<Rightarrow> bool" where
  "same_settings c c' \<longleftrightarrow>
     led_count c' = led_count c \<and> brightness c' = brightness c \<and> Color c' = Color c \<and>
     strip_brightness (strip c') = strip_brightness (strip c)"

text \<open>
  The calls made on the strip between a state \<open>c\<close> and a later state \<open>c'\<close>, and the
  relation between the two that every controller method maintains: the LED count, the
  colour constructor and the buffer length stay, the call history is only extended, and
  every write among the calls issued has its index in \<open>[0, led_count)\<close>.
\<close>

definition issued :: "'c controller \<Rightarrow> 'c controller \<Rightarrow> 'c strip_call list" where
  "issued c c' = drop (length (calls (strip c))) (calls (strip c'))"

definition evolves :: "'c controller \<Rightarrow> 'c controller \<Rightarrow> bool" where
  "evolves c c' \<longleftrightarrow>
     led_count c' = led_count c \<and> Color c' = Color c \<and>
     length (pixels (strip c')) = length (pixels (strip c)) \<and>
     calls (strip c') = calls (strip c) @ issued c c' \<and>
     writes_in_range (led_count c) (issued c c')"

text \<open>
  Two concrete controllers: the one \<open>main\<close> constructs
  (\<open>WS2812Controller(led_count=30, pin=21, brightness=128)\<close>, the other arguments at
  their defaults), and a strip of 10 pixels at full brightness.
\<close>

definition main_controller :: "int controller" where
  "main_controller = projr (WS2812Controller rpi_Color 0 30 21 800000 10 False 128 0)"

definition strip10 :: "int controller" where
  "strip10 = projr (WS2812Controller rpi_Color 0 10 21 800000 10 False 255 0)"

text \<open>
  The colour wheel calls of \<open>rainbow\<close> and \<open>rainbow_cycle\<close> made visible: the same two
  routines, with every call \<open>self.wheel(pos)\<close> appending its argument to a list that is
  returned beside the controller.
\<close>

definition wheel_call :: "int \<Rightarrow> int list \<Rightarrow> rgb \<times> int list" where
  "wheel_call pos args = (wheel pos, args @ [pos])"

definition rainbow_traced :: "'c controller \<Rightarrow> int \<Rightarrow> int \<Rightarrow> 'c controller \<times> int list" where
  "rainbow_traced c wait_ms iterations =
     fold (\<lambda>j (c, args).
             let (c, args) =
                   fold (\<lambda>i (c, args).
                           let (color, args) = wheel_call (rainbow_pos i j) args
                           in (set_pixel c i color, args))
                     (py_range (led_count c)) (c, args)
             in (c\<lparr>strip := PixelStrip_show (strip c)\<rparr>, args))
       (py_range (256 * iterations)) (c, [])"

definition rainbow_cycle_traced ::
  "'c controller \<Rightarrow> int \<Rightarrow> int \<Rightarrow> 'c controller \<times> int list" where
  "rainbow_cycle_traced c wait_ms iterations =
     fold (\<lambda>j (c, args).
             let (c, args) =
                   fold (\<lambda>i (c, args).
                           let (color, args) =
                                 wheel_call (rainbow_cycle_pos (led_count c) i j) args
                           in (set_pixel c i color, args))
                     (py_range (led_count c)) (c, args)
             in (c\<lparr>strip := PixelStrip_show (strip c)\<rparr>, args))
       (py_range (256 * iterations)) (c, [])"

section \<open>The button reader (arcade\_button\_reader.py)\<close>

text \<open>
  \<open>GPIO.input\<close> yields \<open>GPIO.LOW\<close> or \<open>GPIO.HIGH\<close>. The loop of \<open>main\<close> keeps
  \<open>last_state\<close> and \<open>press_count\<close>; one iteration reads a sample and prints at most one
  message. \<open>button_loop\<close> runs the iterations for a finite sequence of samples and gives,
  per sample, the message printed in that iteration.
\<close>

datatype level = LOW | HIGH

datatype message = PRESSED int | RELEASED

record button_state =
  last_state :: level
  press_count :: int

definition button_step :: "level \<Rightarrow> button_state \<Rightarrow> message option \<times> button_state" where
  "button_step current_state s =
     (if current_state = LOW \<and> last_state s = HIGH
      then (let s = s\<lparr>press_count := press_count s + 1\<rparr>
            in (Some (PRESSED (press_count s)), s\<lparr>last_state := current_state\<rparr>))
      else if current_state = HIGH \<and> last_state s = LOW
      then (Some RELEASED, s\<lparr>last_state := current_state\<rparr>)
      else (None, s\<lparr>last_state := current_state\<rparr>))"

fun button_loop :: "button_state \<Rightarrow> level list \<Rightarrow> message option list" where
  "button_loop s [] = []"
| "button_loop s (x # xs) = (case button_step x s of (m, s') \<Rightarrow> m # button_loop s' xs)"

definition button_main :: "level list \<Rightarrow> message option list" where
  "button_main samples = button_loop \<lparr>last_state = HIGH, press_count = 0\<rparr> samples"

fun is_pressed :: "message option \<Rightarrow> bool" where
  "is_pressed (Some (PRESSED n)) = True"
| "is_pressed _ = False"

fun is_released :: "message option \<Rightarrow> bool" where
  "is_released (Some RELEASED) = True"
| "is_released _ = False"

text \<open>The sample before sample \<open>k\<close> (counted from 0); before the first one, the initial \<open>HIGH\<close>.\<close>

definition previous :: "level list \<Rightarrow> nat \<Rightarrow> level" where
  "previous samples k = (if k = 0 then HIGH else samples ! (k - 1))"

text \<open>The positions, counted from 1, of the samples at which a message of a kind is printed.\<close>

definition positions :: "(message option \<Rightarrow> bool) \<Rightarrow> message option list \<Rightarrow> nat list" where
  "positions P ms = map Suc (filter (\<lambda>k. P (ms ! k)) [0..<length ms])"

section \<open>Verification\<close>

subsection \<open>Auxiliary facts\<close>

lemma writes_in_range_append [simp]:
  "writes_in_range n (xs @ ys) \<longleftrightarrow> writes_in_range n xs \<and> writes_in_range n ys"
  by (simp add: writes_in_range_def)

lemma writes_in_range_Nil [simp]: "writes_in_range n []"
  by (simp add: writes_in_range_def)

lemma evolves_iff:
  "evolves c c' \<longleftrightarrow>
     led_count c' = led_count c \<and> Color c' = Color c \<and>
     length (pixels (strip c')) = length (pixels (strip c)) \<and>
     (\<exists>new. calls (strip c') = calls (strip c) @ new \<and> writes_in_range (led_count c) new)"
  unfolding evolves_def issued_def
  by (metis append_eq_conv_conj)

lemma evolves_refl: "evolves c c"
  by (simp add: evolves_def issued_def)

lemma evolves_trans: "evolves a b \<Longrightarrow> evolves b c \<Longrightarrow> evolves a c"
  unfolding evolves_iff by (elim conjE exE) (simp)

lemma evolves_fold:
  assumes step: "\<And>x s. x \<in> set xs \<Longrightarrow> led_count s = n \<Longrightarrow> evolves s (f x s)"
    and n: "led_count s = n"
  shows "evolves s (fold f xs s)"
  using assms
proof (induction xs arbitrary: s)
  case Nil
  show ?case by (simp add: evolves_refl)
next
  case (Cons x xs)
  have 1: "evolves s (f x s)" using Cons.prems by simp
  then have "led_count (f x s) = n" using Cons.prems(2) by (simp add: evolves_def issued_def)
  then have "evolves (f x s) (fold f xs (f x s))"
    using Cons.IH Cons.prems(1) by simp
  with 1 show ?case by (simp add: evolves_trans)
qed

lemma evolves_write:
  "0 \<le> i \<Longrightarrow> i < led_count c \<Longrightarrow>
   evolves c (c\<lparr>strip := setPixelColor (strip c) i col\<rparr>)"
  by (simp add: evolves_def issued_def setPixelColor_def writes_in_range_def)

lemma evolves_set_pixel: "evolves c (set_pixel c i color)"
  by (simp add: set_pixel_def evolves_refl evolves_write split: prod.splits)

lemma evolves_show: "evolves c (c\<lparr>strip := PixelStrip_show (strip c)\<rparr>)"
  by (simp add: evolves_def issued_def PixelStrip_show_def writes_in_range_def)

lemma evolves_set_brightness: "evolves c (set_brightness c b)"
  by (simp add: evolves_def issued_def set_brightness_def setBrightness_def writes_in_range_def Let_def)

lemma in_py_range: "i \<in> set (py_range n) \<longleftrightarrow> 0 \<le> i \<and> i < n"
proof
  assume "i \<in> set (py_range n)"
  then obtain k where "k < nat n" "i = int k" by (auto simp: py_range_def)
  then show "0 \<le> i \<and> i < n" by auto
next
  assume a: "0 \<le> i \<and> i < n"
  then have "nat i < nat n" "i = int (nat i)" by auto
  then show "i \<in> set (py_range n)" unfolding py_range_def
    by (metis atLeastLessThan_iff image_eqI set_map set_upt zero_le)
qed

lemma evolves_set_all_pixels: "evolves c (set_all_pixels c color)"
proof -
  obtain r g b where color: "color = (r, g, b)" by (cases color)
  have "evolves c (fold (\<lambda>i c. c\<lparr>strip := setPixelColor (strip c) i (Color c r g b)\<rparr>)
          (py_range (led_count c)) c)"
  proof (rule evolves_fold [where n = "led_count c"])
    fix x and s :: "'a controller"
    assume "x \<in> set (py_range (led_count c))" "led_count s = led_count c"
    then show "evolves s (s\<lparr>strip := setPixelColor (strip s) x (Color s r g b)\<rparr>)"
      by (simp add: in_py_range evolves_write)
  qed simp
  then show ?thesis by (simp add: set_all_pixels_def color)
qed

lemma evolves_clear: "evolves c (clear c)"
  unfolding clear_def Let_def
  by (rule evolves_trans [OF evolves_set_all_pixels evolves_show])

lemma evolves_wipe_step:
  "evolves s (let c = set_pixel s i color in c\<lparr>strip := PixelStrip_show (strip c)\<rparr>)"
  unfolding Let_def by (rule evolves_trans [OF evolves_set_pixel evolves_show])

lemma evolves_color_wipe: "evolves c (color_wipe c color wait_ms)"
  unfolding color_wipe_def
  by (rule evolves_fold [where n = "led_count c"]) (simp_all add: evolves_wipe_step)


lemma evolves_pixels_fold:
  "evolves s (fold (\<lambda>i c. set_pixel c (g i) (h i c)) xs s)"
  by (rule evolves_fold [where n = "led_count s"]) (simp_all add: evolves_set_pixel)

lemma evolves_chase_step:
  "evolves s
     (let c = fold (\<lambda>i c. set_pixel c (i + q) color) (range_step 0 (led_count s) 3) s;
          c = c\<lparr>strip := PixelStrip_show (strip c)\<rparr>
      in fold (\<lambda>i c. set_pixel c (i + q) (0, 0, 0)) (range_step 0 (led_count c) 3) c)"
  unfolding Let_def
  by (rule evolves_trans [OF evolves_pixels_fold evolves_trans [OF evolves_show evolves_pixels_fold]])

lemma evolves_theater_chase: "evolves c (theater_chase c color wait_ms iterations)"
  unfolding theater_chase_def
proof (rule evolves_fold [where n = "led_count c"])
  fix j and s :: "'a controller"
  show "evolves s (fold (\<lambda>q c.
          let c = fold (\<lambda>i c. set_pixel c (i + q) color) (range_step 0 (led_count c) 3) c;
              c = c\<lparr>strip := PixelStrip_show (strip c)\<rparr>
          in fold (\<lambda>i c. set_pixel c (i + q) (0, 0, 0)) (range_step 0 (led_count c) 3) c)
        (py_range 3) s)"
    by (rule evolves_fold [where n = "led_count s"], rule evolves_chase_step, rule refl)
qed (rule refl)

lemma evolves_rainbow: "evolves c (rainbow c wait_ms iterations)"
  unfolding rainbow_def Let_def
  by (rule evolves_fold [where n = "led_count c"])
     (simp_all add: evolves_trans [OF evolves_pixels_fold evolves_show])

lemma evolves_rainbow_cycle: "evolves c (rainbow_cycle c wait_ms iterations)"
  unfolding rainbow_cycle_def Let_def
  by (rule evolves_fold [where n = "led_count c"])
     (simp_all add: evolves_trans [OF evolves_pixels_fold evolves_show])

lemma evolves_breathe_step: "evolves s (breathe_step color b s)"
  unfolding breathe_step_def Let_def
  by (rule evolves_trans [OF evolves_set_brightness
        evolves_trans [OF evolves_set_all_pixels evolves_show]])

lemma evolves_breathing_effect: "evolves c (breathing_effect c color cycles)"
proof -
  have fade: "evolves s (fold (breathe_step color) xs s)" for s :: "'a controller" and xs
    by (rule evolves_fold [where n = "led_count s"]) (simp_all add: evolves_breathe_step)
  have cycle: "evolves s (let c = fold (breathe_step color) (range_step 0 255 5) s
                 in fold (breathe_step color) (range_step 255 0 (- 5)) c)"
    for s :: "'a controller"
    unfolding Let_def by (rule evolves_trans [OF fade fade])
  have "evolves c (fold (\<lambda>cycle c.
                      let c = fold (breathe_step color) (range_step 0 255 5) c
                      in fold (breathe_step color) (range_step 255 0 (- 5)) c)
                (py_range cycles) c)"
    by (rule evolves_fold [where n = "led_count c"], rule cycle, rule refl)
  then show ?thesis
    unfolding breathing_effect_def Let_def
    by (rule evolves_trans) (rule evolves_set_brightness)
qed

lemma evolves_police_round: "evolves c (police_round c)"
proof -
  have paint: "evolves s (let c = set_all_pixels s col in c\<lparr>strip := PixelStrip_show (strip c)\<rparr>)"
    for s :: "'a controller" and col
    unfolding Let_def by (rule evolves_trans [OF evolves_set_all_pixels evolves_show])
  show ?thesis
    unfolding police_round_def
    using evolves_trans [OF paint evolves_trans [OF paint evolves_trans [OF paint paint]]]
    by (simp add: Let_def)
qed

lemma evolves_police_lights_loop:
  "police_lights_loop start_time duration c ts = Some c' \<Longrightarrow> evolves c c'"
proof (induction ts arbitrary: c)
  case Nil
  then show ?case by simp
next
  case (Cons t ts)
  show ?case
  proof (cases "t - start_time < duration")
    case True
    with Cons.prems have "police_lights_loop start_time duration (police_round c) ts = Some c'"
      by simp
    then have "evolves (police_round c) c'" by (rule Cons.IH)
    with evolves_police_round show ?thesis by (rule evolves_trans)
  next
    case False
    with Cons.prems show ?thesis by (simp add: evolves_refl)
  qed
qed

lemma evolves_police_lights: "police_lights c duration clock = Some c' \<Longrightarrow> evolves c c'"
  by (auto simp: police_lights_def split: list.splits dest: evolves_police_lights_loop)


lemma evolves_random_frame:
  "evolves c (fst (random_frame rnd (c, k)))"
proof -
  let ?f = "\<lambda>i (c, k). let color = (randint rnd k 0 255, randint rnd (k + 1) 0 255,
                          randint rnd (k + 2) 0 255)
             in (set_pixel c i color, k + 3)"
  have "evolves (fst ck) (fst (fold ?f xs ck))" for xs and ck :: "'a controller \<times> nat"
  proof (induction xs arbitrary: ck)
    case Nil
    show ?case by (simp add: evolves_refl)
  next
    case (Cons x xs)
    obtain s j where ck: "ck = (s, j)" by (cases ck)
    have "evolves (fst ck) (fst (?f x ck))"
      by (simp add: ck Let_def evolves_set_pixel)
    then show ?case using Cons.IH [of "?f x ck"]
      by (simp del: split_paired_All) (rule evolves_trans)
  qed
  from this [of "(c, k)"] show ?thesis by (simp add: random_frame_def)
qed

lemma evolves_random_colors_loop:
  "random_colors_loop start_time duration rnd ck ts = Some c' \<Longrightarrow> evolves (fst ck) c'"
proof (induction ts arbitrary: ck)
  case Nil
  then show ?case by simp
next
  case (Cons t ts)
  obtain s j where ck: "ck = (s, j)" by (cases ck)
  show ?case
  proof (cases "t - start_time < duration")
    case True
    obtain s' j' where fr: "random_frame rnd (s, j) = (s', j')" by (cases "random_frame rnd (s, j)")
    from Cons.prems True have
      "random_colors_loop start_time duration rnd (s'\<lparr>strip := PixelStrip_show (strip s')\<rparr>, j') ts
         = Some c'"
      by (simp add: ck fr)
    then have "evolves (s'\<lparr>strip := PixelStrip_show (strip s')\<rparr>) c'"
      using Cons.IH by fastforce
    moreover have "evolves s s'" using evolves_random_frame [of s rnd j] by (simp add: fr)
    ultimately show ?thesis
      unfolding ck fst_conv
      by (rule evolves_trans [OF evolves_trans [OF _ evolves_show], rotated])
  next
    case False
    with Cons.prems show ?thesis by (simp add: evolves_refl)
  qed
qed

lemma evolves_random_colors: "random_colors c duration clock rnd = Some c' \<Longrightarrow> evolves c c'"
  by (auto simp: random_colors_def split: list.splits dest: evolves_random_colors_loop)


lemma same_settings_refl: "same_settings c c"
  by (simp add: same_settings_def)

lemma same_settings_trans: "same_settings a b \<Longrightarrow> same_settings b c \<Longrightarrow> same_settings a c"
  by (simp add: same_settings_def)

lemma same_settings_fold:
  "(\<And>x s. same_settings s (f x s)) \<Longrightarrow> same_settings s (fold f xs s)"
proof (induction xs arbitrary: s)
  case Nil
  show ?case by (simp add: same_settings_refl)
next
  case (Cons x xs)
  have "same_settings s (f x s)" by (rule Cons.prems)
  moreover have "same_settings (f x s) (fold f xs (f x s))"
    by (rule Cons.IH) (rule Cons.prems)
  ultimately show ?case by (simp add: same_settings_trans)
qed

lemma same_settings_write:
  "same_settings c (c\<lparr>strip := setPixelColor (strip c) i col\<rparr>)"
  by (simp add: same_settings_def setPixelColor_def)

lemma same_settings_set_pixel: "same_settings c (set_pixel c i color)"
  by (simp add: set_pixel_def same_settings_refl same_settings_write split: prod.splits)

lemma same_settings_show: "same_settings c (c\<lparr>strip := PixelStrip_show (strip c)\<rparr>)"
  by (simp add: same_settings_def PixelStrip_show_def)

lemma same_settings_set_all_pixels: "same_settings c (set_all_pixels c color)"
  unfolding set_all_pixels_def
  by (cases color) (simp add: same_settings_fold same_settings_write)

lemma same_settings_paint:
  "same_settings s (let c = set_all_pixels s col in c\<lparr>strip := PixelStrip_show (strip c)\<rparr>)"
  unfolding Let_def by (rule same_settings_trans [OF same_settings_set_all_pixels same_settings_show])

lemma same_settings_clear: "same_settings c (clear c)"
  unfolding clear_def by (rule same_settings_paint)

lemma same_settings_pixels_fold:
  "same_settings s (fold (\<lambda>i c. set_pixel c (g i) (h i c)) xs s)"
  by (rule same_settings_fold) (rule same_settings_set_pixel)

lemma same_settings_color_wipe: "same_settings c (color_wipe c color wait_ms)"
  unfolding color_wipe_def Let_def
  by (rule same_settings_fold)
     (rule same_settings_trans [OF same_settings_set_pixel same_settings_show])

lemma same_settings_theater_chase: "same_settings c (theater_chase c color wait_ms iterations)"
  unfolding theater_chase_def Let_def
  by (rule same_settings_fold, rule same_settings_fold)
     (rule same_settings_trans [OF same_settings_pixels_fold
        same_settings_trans [OF same_settings_show same_settings_pixels_fold]])

lemma same_settings_rainbow: "same_settings c (rainbow c wait_ms iterations)"
  unfolding rainbow_def Let_def
  by (rule same_settings_fold)
     (rule same_settings_trans [OF same_settings_pixels_fold same_settings_show])

lemma same_settings_rainbow_cycle: "same_settings c (rainbow_cycle c wait_ms iterations)"
  unfolding rainbow_cycle_def Let_def
  by (rule same_settings_fold)
     (rule same_settings_trans [OF same_settings_pixels_fold same_settings_show])

lemma same_settings_police_round: "same_settings c (police_round c)"
  unfolding police_round_def
  using same_settings_trans [OF same_settings_paint
          same_settings_trans [OF same_settings_paint
            same_settings_trans [OF same_settings_paint same_settings_paint]]]
  by (simp add: Let_def)

lemma same_settings_police_lights_loop:
  "police_lights_loop start_time duration c ts = Some c' \<Longrightarrow> same_settings c c'"
proof (induction ts arbitrary: c)
  case Nil
  then show ?case by simp
next
  case (Cons t ts)
  show ?case
  proof (cases "t - start_time < duration")
    case True
    with Cons.prems have "police_lights_loop start_time duration (police_round c) ts = Some c'"
      by simp
    then have "same_settings (police_round c) c'" by (rule Cons.IH)
    with same_settings_police_round show ?thesis by (rule same_settings_trans)
  next
    case False
    with Cons.prems show ?thesis by (simp add: same_settings_refl)
  qed
qed

lemma same_settings_police_lights:
  "police_lights c duration clock = Some c' \<Longrightarrow> same_settings c c'"
  by (auto simp: police_lights_def split: list.splits dest: same_settings_police_lights_loop)

lemma same_settings_random_frame:
  "same_settings c (fst (random_frame rnd (c, k)))"
proof -
  let ?f = "\<lambda>i (c, k). let color = (randint rnd k 0 255, randint rnd (k + 1) 0 255,
                          randint rnd (k + 2) 0 255)
             in (set_pixel c i color, k + 3)"
  have "same_settings (fst ck) (fst (fold ?f xs ck))" for xs and ck :: "'a controller \<times> nat"
  proof (induction xs arbitrary: ck)
    case Nil
    show ?case by (simp add: same_settings_refl)
  next
    case (Cons x xs)
    obtain s j where ck: "ck = (s, j)" by (cases ck)
    have "same_settings (fst ck) (fst (?f x ck))"
      by (simp add: ck Let_def same_settings_set_pixel)
    then show ?case using Cons.IH [of "?f x ck"]
      by (simp del: split_paired_All) (rule same_settings_trans)
  qed
  from this [of "(c, k)"] show ?thesis by (simp add: random_frame_def)
qed

lemma same_settings_random_colors_loop:
  "random_colors_loop start_time duration rnd ck ts = Some c' \<Longrightarrow> same_settings (fst ck) c'"
proof (induction ts arbitrary: ck)
  case Nil
  then show ?case by simp
next
  case (Cons t ts)
  obtain s j where ck: "ck = (s, j)" by (cases ck)
  show ?case
  proof (cases "t - start_time < duration")
    case True
    obtain s' j' where fr: "random_frame rnd (s, j) = (s', j')" by (cases "random_frame rnd (s, j)")
    from Cons.prems True have
      "random_colors_loop start_time duration rnd (s'\<lparr>strip := PixelStrip_show (strip s')\<rparr>, j') ts
         = Some c'"
      by (simp add: ck fr)
    then have "same_settings (s'\<lparr>strip := PixelStrip_show (strip s')\<rparr>) c'"
      using Cons.IH by fastforce
    moreover have "same_settings s s'"
      using same_settings_random_frame [of s rnd j] by (simp add: fr)
    ultimately show ?thesis
      unfolding ck fst_conv
      by (rule same_settings_trans [OF same_settings_trans [OF _ same_settings_show], rotated])
  next
    case False
    with Cons.prems show ?thesis by (simp add: same_settings_refl)
  qed
qed

lemma same_settings_random_colors:
  "random_colors c duration clock rnd = Some c' \<Longrightarrow> same_settings c c'"
  by (auto simp: random_colors_def split: list.splits dest: same_settings_random_colors_loop)

lemma brightness_set_brightness:
  "brightness (set_brightness c b) = max 0 (min 255 b)"
  "strip_brightness (strip (set_brightness c b)) = max 0 (min 255 b)"
  by (simp_all add: set_brightness_def setBrightness_def Let_def)

lemma byte_set_brightness: "byte (brightness (set_brightness c b))"
  by (simp add: brightness_set_brightness byte_def)

lemma brightness_breathing_effect: "brightness (breathing_effect c color cycles) = 255"
  by (simp add: breathing_effect_def Let_def brightness_set_brightness)

lemma evolves_fits: "evolves c c' \<Longrightarrow> strip_fits c \<Longrightarrow> strip_fits c'"
  by (simp add: evolves_def issued_def strip_fits_def)


lemma replicate_drop_update:
  "k < length xs \<Longrightarrow>
   (replicate k v @ drop k xs)[k := v] = replicate (Suc k) v @ drop (Suc k) xs"
  by (simp add: list_update_append Cons_nth_drop_Suc [symmetric] replicate_app_Cons_same)

lemma fill_prefix:
  fixes c :: "'c controller" and r g b :: int
  defines "f \<equiv> \<lambda>i (c :: 'c controller). c\<lparr>strip := setPixelColor (strip c) i (Color c r g b)\<rparr>"
  assumes k: "k \<le> length (pixels (strip c))"
  shows "Color (fold f (map int [0..<k]) c) = Color c \<and>
         pixels (strip (fold f (map int [0..<k]) c)) =
           replicate k (Color c r g b) @ drop k (pixels (strip c))"
  using k
proof (induction k)
  case 0
  show ?case by simp
next
  case (Suc k)
  define s where "s = fold f (map int [0..<k]) c"
  have ih: "Color s = Color c"
    "pixels (strip s) = replicate k (Color c r g b) @ drop k (pixels (strip c))"
    using Suc by (simp_all add: s_def)
  have step: "fold f (map int [0..<Suc k]) c = f (int k) s"
    by (simp add: s_def)
  have lt: "k < length (pixels (strip c))" using Suc.prems by simp
  have "Color (f (int k) s) = Color c"
    by (simp add: f_def ih)
  moreover have "pixels (strip (f (int k) s)) =
      replicate (Suc k) (Color c r g b) @ drop (Suc k) (pixels (strip c))"
    using lt replicate_drop_update [OF lt, of "Color c r g b"]
    by (simp add: f_def ih setPixelColor_def del: replicate_Suc)
  ultimately show ?case unfolding step by simp
qed

lemma pixels_set_all_pixels:
  assumes "strip_fits c"
  shows "pixels (strip (set_all_pixels c (r, g, b))) =
           replicate (nat (led_count c)) (Color c r g b)"
  using fill_prefix [of "nat (led_count c)" c r g b] assms
  by (simp add: set_all_pixels_def py_range_def strip_fits_def)

lemma wipe_prefix:
  fixes c :: "'c controller" and r g b :: int
  defines "f \<equiv> \<lambda>i (c :: 'c controller).
             let c = set_pixel c i (r, g, b) in c\<lparr>strip := PixelStrip_show (strip c)\<rparr>"
  assumes fits: "strip_fits c" and k: "k \<le> nat (led_count c)"
  shows "led_count (fold f (map int [0..<k]) c) = led_count c \<and>
         Color (fold f (map int [0..<k]) c) = Color c \<and>
         pixels (strip (fold f (map int [0..<k]) c)) =
           replicate k (Color c r g b) @ drop k (pixels (strip c)) \<and>
         calls (strip (fold f (map int [0..<k]) c)) =
           calls (strip c) @
           concat (map (\<lambda>i. [SetPixelColor i (Color c r g b), Show]) (map int [0..<k]))"
  using k
proof (induction k)
  case 0
  show ?case by simp
next
  case (Suc k)
  define s where "s = fold f (map int [0..<k]) c"
  have ih: "led_count s = led_count c" "Color s = Color c"
    "pixels (strip s) = replicate k (Color c r g b) @ drop k (pixels (strip c))"
    "calls (strip s) = calls (strip c) @
           concat (map (\<lambda>i. [SetPixelColor i (Color c r g b), Show]) (map int [0..<k]))"
    using Suc by (simp_all add: s_def)
  have step: "fold f (map int [0..<Suc k]) c = f (int k) s"
    by (simp add: s_def)
  have lt: "k < length (pixels (strip c))" and lt': "int k < led_count c"
    using Suc.prems fits by (simp_all add: strip_fits_def)
  have fs: "f (int k) s =
      s\<lparr>strip := PixelStrip_show (setPixelColor (strip s) (int k) (Color c r g b))\<rparr>"
    using lt' by (simp add: f_def set_pixel_def ih Let_def)
  have "pixels (strip (f (int k) s)) =
      replicate (Suc k) (Color c r g b) @ drop (Suc k) (pixels (strip c))"
    using lt replicate_drop_update [OF lt, of "Color c r g b"]
    by (simp add: fs ih setPixelColor_def PixelStrip_show_def del: replicate_Suc)
  moreover have "calls (strip (f (int k) s)) = calls (strip c) @
      concat (map (\<lambda>i. [SetPixelColor i (Color c r g b), Show]) (map int [0..<Suc k]))"
    by (simp add: fs ih setPixelColor_def PixelStrip_show_def)
  moreover have "led_count (f (int k) s) = led_count c" "Color (f (int k) s) = Color c"
    by (simp_all add: fs ih)
  ultimately show ?case unfolding step by simp
qed

lemma flushes_wipe_calls:
  "flushes (concat (map (\<lambda>i. [SetPixelColor i col, Show]) xs)) = length xs"
  by (induction xs) (simp_all add: flushes_def)

lemma color_wipe_result:
  assumes "strip_fits c"
  shows "pixels (strip (color_wipe c (r, g, b) wait_ms)) =
           replicate (nat (led_count c)) (Color c r g b)"
    and "calls (strip (color_wipe c (r, g, b) wait_ms)) =
           calls (strip c) @
           concat (map (\<lambda>i. [SetPixelColor i (Color c r g b), Show]) (py_range (led_count c)))"
  using wipe_prefix [OF assms, of "nat (led_count c)" r g b] assms
  by (simp_all add: color_wipe_def py_range_def strip_fits_def)


lemma strip_fits_init:
  "WS2812Controller col blank n pin freq dma invert b channel = Inr c \<Longrightarrow> strip_fits c"
  by (auto simp: strip_fits_def WS2812Controller_def PixelStrip_def split: if_splits)

lemma main_controller_built:
  "WS2812Controller rpi_Color 0 30 21 800000 10 False 128 0 = Inr main_controller"
  by (simp add: main_controller_def WS2812Controller_def PixelStrip_def)

lemma strip10_built:
  "WS2812Controller rpi_Color 0 10 21 800000 10 False 255 0 = Inr strip10"
  by (simp add: strip10_def WS2812Controller_def PixelStrip_def)

lemma mask_255_byte: "byte (x AND 255)"
proof -
  have "0 \<le> x AND 255" by simp
  moreover have "x AND 255 \<le> 255" by (rule AND_upper2) simp
  ultimately show ?thesis by (simp add: byte_def)
qed

lemma last_state_button_step: "last_state (snd (button_step x s)) = x"
  by (simp add: button_step_def Let_def)

lemma button_step_pressed:
  "is_pressed (fst (button_step x s)) \<longleftrightarrow> x = LOW \<and> last_state s = HIGH"
  by (simp add: button_step_def Let_def)

lemma button_step_released:
  "is_released (fst (button_step x s)) \<longleftrightarrow> x = HIGH \<and> last_state s = LOW"
  by (simp add: button_step_def Let_def)

lemma button_loop_edges:
  "k < length xs \<Longrightarrow>
   (is_pressed (button_loop s xs ! k) \<longleftrightarrow>
      xs ! k = LOW \<and> (if k = 0 then last_state s else xs ! (k - 1)) = HIGH) \<and>
   (is_released (button_loop s xs ! k) \<longleftrightarrow>
      xs ! k = HIGH \<and> (if k = 0 then last_state s else xs ! (k - 1)) = LOW)"
proof (induction xs arbitrary: s k)
  case Nil
  then show ?case by simp
next
  case (Cons x xs)
  obtain m s' where st: "button_step x s = (m, s')" by (cases "button_step x s")
  have m: "is_pressed m \<longleftrightarrow> x = LOW \<and> last_state s = HIGH"
    "is_released m \<longleftrightarrow> x = HIGH \<and> last_state s = LOW"
    using button_step_pressed [of x s] button_step_released [of x s] by (simp_all add: st)
  have s': "last_state s' = x" using last_state_button_step [of x s] by (simp add: st)
  show ?case
  proof (cases k)
    case 0
    then show ?thesis by (simp add: st m)
  next
    case (Suc j)
    then have "j < length xs" using Cons.prems by simp
    from Cons.IH [OF this, of s'] show ?thesis
      by (cases j) (simp_all add: Suc st s')
  qed
qed

lemma byte_same_settings: "same_settings c c' \<Longrightarrow> byte (brightness c) \<Longrightarrow> byte (brightness c')"
  by (simp add: same_settings_def)

lemma strip10_facts:
  "led_count strip10 = 10" "Color strip10 = rpi_Color" "calls (strip strip10) = []"
  "strip_fits strip10"
  by (simp_all add: strip10_def WS2812Controller_def PixelStrip_def strip_fits_def)

lemma traced_fold:
  assumes step: "\<And>x s args. led_count s = n \<Longrightarrow> f x (s, args) = (g x s, args @ h x)"
    and keep: "\<And>x s. led_count s = n \<Longrightarrow> led_count (g x s) = n"
    and n: "led_count c = n"
  shows "fold f xs (c, args) = (fold g xs c, args @ concat (map h xs))"
  using n
proof (induction xs arbitrary: c args)
  case Nil
  show ?case by simp
next
  case (Cons x xs)
  have "led_count (g x c) = n" using Cons.prems by (rule keep)
  then have "fold f xs (g x c, args @ h x) =
      (fold g xs (g x c), (args @ h x) @ concat (map h xs))"
    by (rule Cons.IH)
  then show ?case by (simp add: step [OF Cons.prems])
qed

lemma led_count_pixels_fold:
  "led_count (fold (\<lambda>i c. set_pixel c (g i) (h i c)) xs s) = led_count s"
  using evolves_pixels_fold [of s g h xs] by (simp add: evolves_def)

lemma rainbow_traced_eq:
  fixes c :: "'c controller"
  shows "rainbow_traced c wait_ms iterations =
     (rainbow c wait_ms iterations,
      concat (map (\<lambda>j. map (\<lambda>i. rainbow_pos i j) (py_range (led_count c)))
                (py_range (256 * iterations))))"
proof -
  define fin where "fin j = (\<lambda>i (c :: 'c controller, args).
      let (color, args) = wheel_call (rainbow_pos i j) args in (set_pixel c i color, args))" for j
  define gin where "gin j = (\<lambda>i (c :: 'c controller). set_pixel c i (wheel (rainbow_pos i j)))" for j
  have inner: "fold (fin j) xs (s, args) =
      (fold (gin j) xs s, args @ map (\<lambda>i. rainbow_pos i j) xs)" for j xs s args
  proof -
    have "fold (fin j) xs (s, args) =
        (fold (gin j) xs s, args @ concat (map (\<lambda>i. [rainbow_pos i j]) xs))"
      by (rule traced_fold [where n = "led_count s"])
         (simp_all add: fin_def gin_def wheel_call_def set_pixel_def split: prod.splits)
    then show ?thesis by simp
  qed
  have keep: "led_count (fold (gin j) xs s) = led_count s" for j xs s
    unfolding gin_def by (rule led_count_pixels_fold)
  define fout where "fout = (\<lambda>j (c :: 'c controller, args :: int list).
      let (c, args) = fold (fin j) (py_range (led_count c)) (c, args)
      in (c\<lparr>strip := PixelStrip_show (strip c)\<rparr>, args))"
  define gout where "gout = (\<lambda>j (c :: 'c controller).
      let c = fold (gin j) (py_range (led_count c)) c
      in c\<lparr>strip := PixelStrip_show (strip c)\<rparr>)"
  have "fold fout ys (c, []) =
      (fold gout ys c,
       [] @ concat (map (\<lambda>j. map (\<lambda>i. rainbow_pos i j) (py_range (led_count c))) ys))"
    for ys
  proof (rule traced_fold [where n = "led_count c"])
    fix j args and s :: "'c controller"
    assume "led_count s = led_count c"
    then show "fout j (s, args) =
        (gout j s, args @ map (\<lambda>i. rainbow_pos i j) (py_range (led_count c)))"
      by (simp add: fout_def gout_def inner Let_def)
  next
    fix j and s :: "'c controller"
    assume "led_count s = led_count c"
    then show "led_count (gout j s) = led_count c"
      by (simp add: gout_def Let_def keep)
  qed simp
  then show ?thesis
    by (simp add: rainbow_traced_def rainbow_def fout_def gout_def fin_def gin_def)
qed

lemma rainbow_cycle_traced_eq:
  fixes c :: "'c controller"
  shows "rainbow_cycle_traced c wait_ms iterations =
     (rainbow_cycle c wait_ms iterations,
      concat (map (\<lambda>j. map (\<lambda>i. rainbow_cycle_pos (led_count c) i j) (py_range (led_count c)))
                (py_range (256 * iterations))))"
proof -
  define fin where "fin j = (\<lambda>i (c :: 'c controller, args).
      let (color, args) = wheel_call (rainbow_cycle_pos (led_count c) i j) args in (set_pixel c i color, args))" for j
  define gin where "gin j = (\<lambda>i (c :: 'c controller). set_pixel c i (wheel (rainbow_cycle_pos (led_count c) i j)))" for j
  have inner: "fold (fin j) xs (s, args) =
      (fold (gin j) xs s, args @ map (\<lambda>i. rainbow_cycle_pos (led_count s) i j) xs)" for j xs s args
  proof -
    have "fold (fin j) xs (s, args) =
        (fold (gin j) xs s, args @ concat (map (\<lambda>i. [rainbow_cycle_pos (led_count s) i j]) xs))"
      by (rule traced_fold [where n = "led_count s"])
         (simp_all add: fin_def gin_def wheel_call_def set_pixel_def split: prod.splits)
    then show ?thesis by simp
  qed
  have keep: "led_count (fold (gin j) xs s) = led_count s" for j xs s
    unfolding gin_def by (rule led_count_pixels_fold)
  define fout where "fout = (\<lambda>j (c :: 'c controller, args :: int list).
      let (c, args) = fold (fin j) (py_range (led_count c)) (c, args)
      in (c\<lparr>strip := PixelStrip_show (strip c)\<rparr>, args))"
  define gout where "gout = (\<lambda>j (c :: 'c controller).
      let c = fold (gin j) (py_range (led_count c)) c
      in c\<lparr>strip := PixelStrip_show (strip c)\<rparr>)"
  have "fold fout ys (c, []) =
      (fold gout ys c,
       [] @ concat (map (\<lambda>j. map (\<lambda>i. rainbow_cycle_pos (led_count c) i j) (py_range (led_count c))) ys))"
    for ys
  proof (rule traced_fold [where n = "led_count c"])
    fix j args and s :: "'c controller"
    assume "led_count s = led_count c"
    then show "fout j (s, args) =
        (gout j s, args @ map (\<lambda>i. rainbow_cycle_pos (led_count c) i j) (py_range (led_count c)))"
      by (simp add: fout_def gout_def inner Let_def)
  next
    fix j and s :: "'c controller"
    assume "led_count s = led_count c"
    then show "led_count (gout j s) = led_count c"
      by (simp add: gout_def Let_def keep)
  qed simp
  then show ?thesis
    by (simp add: rainbow_cycle_traced_def rainbow_cycle_def fout_def gout_def fin_def gin_def)
qed

lemma list_all_byte_positions:
  "list_all byte (concat (map (\<lambda>j. map (\<lambda>i. rainbow_pos i j) xs) ys))"
  "list_all byte (concat (map (\<lambda>j. map (\<lambda>i. rainbow_cycle_pos n i j) xs) ys))"
  by (simp_all add: list_all_iff rainbow_pos_def rainbow_cycle_pos_def mask_255_byte)

subsection \<open>The claims\<close>

text \<open>
  C1. For every position in \<open>[0,255]\<close> the colour wheel has the three 85-wide bands with
  breakpoints 0, 85 and 170: below 85 it returns \<open>(pos*3, 255 - pos*3, 0)\<close>, from 85 and
  below 170 it returns \<open>(255 - (pos-85)*3, 0, (pos-85)*3)\<close>, and from 170 on it returns
  \<open>(0, (pos-170)*3, 255 - (pos-170)*3)\<close>; in particular \<open>wheel 0 = (0,255,0)\<close>.
\<close>

theorem wheel_three_bands:
  "0 \<le> pos \<and> pos \<le> 255 \<Longrightarrow>
     (pos < 85 \<longrightarrow> wheel pos = (pos * 3, 255 - pos * 3, 0)) \<and>
     (85 \<le> pos \<and> pos < 170 \<longrightarrow> wheel pos = (255 - (pos - 85) * 3, 0, (pos - 85) * 3)) \<and>
     (170 \<le> pos \<longrightarrow> wheel pos = (0, (pos - 170) * 3, 255 - (pos - 170) * 3)) \<and>
     wheel pos = wheel_spec pos \<and>
     wheel 0 = (0, 255, 0)"
  by (simp add: wheel_def wheel_spec_def Let_def)

theorem wheel_three_bands_witness:
  "(0::int) \<le> 84 \<and> (84::int) \<le> 255 \<and> (0::int) \<le> 170 \<and> (170::int) \<le> 255 \<and>
   wheel 0 = (0, 255, 0) \<and> wheel 84 = (252, 3, 0) \<and> wheel 85 = (255, 0, 0) \<and>
   wheel 169 = (3, 0, 252) \<and> wheel 170 = (0, 0, 255) \<and> wheel 255 = (0, 255, 0)"
  using wheel_three_bands [of 0] wheel_three_bands [of 84] wheel_three_bands [of 85]
    wheel_three_bands [of 169] wheel_three_bands [of 170] wheel_three_bands [of 255]
  by simp

text \<open>
  C2. For every index outside \<open>[0, led_count)\<close> and every colour, \<open>set_pixel\<close> returns
  the controller as it was: the buffer is unchanged and the strip is not even called. For
  every index inside, it writes the packed colour of the given triple at that index and
  nowhere else.
\<close>

theorem set_pixel_guarded:
  "(\<not> (0 \<le> i \<and> i < led_count c) \<longrightarrow> set_pixel c i color = c) \<and>
   (strip_fits c \<and> 0 \<le> i \<and> i < led_count c \<longrightarrow>
      pixels (strip (set_pixel c i (r, g, b))) = (pixels (strip c))[nat i := Color c r g b] \<and>
      pixels (strip (set_pixel c i (r, g, b))) ! nat i = Color c r g b)"
  by (auto simp: set_pixel_def setPixelColor_def strip_fits_def)

theorem set_pixel_guarded_witness:
  "\<not> (0 \<le> (10::int) \<and> 10 < led_count strip10) \<and>
   set_pixel strip10 10 (255, 0, 0) = strip10 \<and>
   \<not> (0 \<le> (- 1::int) \<and> - 1 < led_count strip10) \<and>
   set_pixel strip10 (- 1) (255, 0, 0) = strip10 \<and>
   strip_fits strip10 \<and> 0 \<le> (3::int) \<and> 3 < led_count strip10 \<and>
   pixels (strip (set_pixel strip10 3 (255, 0, 0))) =
     [0, 0, 0, rpi_Color 255 0 0, 0, 0, 0, 0, 0, 0]"
proof -
  have lc: "led_count strip10 = 10" and cl: "Color strip10 = rpi_Color"
    and px: "pixels (strip strip10) = [0, 0, 0, 0, 0, 0, 0, 0, 0, 0]"
    by (simp_all add: strip10_def WS2812Controller_def PixelStrip_def eval_nat_numeral)
  have fits: "strip_fits strip10" by (rule strip_fits_init [OF strip10_built])
  show ?thesis
    using set_pixel_guarded [of 10 strip10 "(255, 0, 0)" 0 0 0]
      set_pixel_guarded [of "- 1" strip10 "(255, 0, 0)" 0 0 0]
      set_pixel_guarded [of 3 strip10 "(255, 0, 0)" 255 0 0] fits
    by (simp add: lc cl px eval_nat_numeral)
qed

text \<open>
  C3. Starting from the previous state \<open>HIGH\<close>, the samples
  \<open>[HIGH, HIGH, LOW, LOW, HIGH]\<close> give exactly one "pressed" message, at the third
  sample, and exactly one "released" message, at the fifth. In general the message at a
  sample is "pressed" exactly when that sample is \<open>LOW\<close> and the one before it is \<open>HIGH\<close>,
  and "released" exactly when that sample is \<open>HIGH\<close> and the one before it is \<open>LOW\<close>.
  The "pressed" message is not at the second sample, which is \<open>HIGH\<close>.
\<close>

theorem button_edges:
  "positions is_pressed (button_main [HIGH, HIGH, LOW, LOW, HIGH]) = [3] \<and>
   positions is_released (button_main [HIGH, HIGH, LOW, LOW, HIGH]) = [5] \<and>
   (k < length samples \<longrightarrow>
      (is_pressed (button_main samples ! k) \<longleftrightarrow>
         samples ! k = LOW \<and> previous samples k = HIGH) \<and>
      (is_released (button_main samples ! k) \<longleftrightarrow>
         samples ! k = HIGH \<and> previous samples k = LOW))"
proof -
  have "positions is_pressed (button_main [HIGH, HIGH, LOW, LOW, HIGH]) = [3]"
    by code_simp
  moreover have "positions is_released (button_main [HIGH, HIGH, LOW, LOW, HIGH]) = [5]"
    by code_simp
  moreover have "k < length samples \<longrightarrow>
      (is_pressed (button_main samples ! k) \<longleftrightarrow>
         samples ! k = LOW \<and> previous samples k = HIGH) \<and>
      (is_released (button_main samples ! k) \<longleftrightarrow>
         samples ! k = HIGH \<and> previous samples k = LOW)"
    using button_loop_edges [of k samples "\<lparr>last_state = HIGH, press_count = 0\<rparr>"]
    by (simp add: button_main_def previous_def)
  ultimately show ?thesis by blast
qed

theorem button_edges_witness:
  "(2::nat) < length [HIGH, HIGH, LOW, LOW, HIGH] \<and>
   is_pressed (button_main [HIGH, HIGH, LOW, LOW, HIGH] ! 2) \<and>
   \<not> is_pressed (button_main [HIGH, HIGH, LOW, LOW, HIGH] ! 1) \<and>
   \<not> is_released (button_main [HIGH, HIGH, LOW, LOW, HIGH] ! 2)"
  using button_edges [of 2 "[HIGH, HIGH, LOW, LOW, HIGH]"]
    button_edges [of 1 "[HIGH, HIGH, LOW, LOW, HIGH]"]
  by (simp add: previous_def)

theorem pressed_at_second_sample_counterexample:
  "\<not> (positions is_pressed (button_main [HIGH, HIGH, LOW, LOW, HIGH]) = [2] \<and>
      positions is_released (button_main [HIGH, HIGH, LOW, LOW, HIGH]) = [5])"
proof -
  have "positions is_pressed (button_main [HIGH, HIGH, LOW, LOW, HIGH]) = [3]"
    by code_simp
  then show ?thesis by simp
qed

text \<open>
  C4. For every integer level, \<open>set_brightness\<close> stores the level clamped to \<open>[0,255]\<close>:
  255 for a level above 255 (so for 300), 0 for a level below 0 (so for -5), and the level
  itself otherwise; the same value is passed on to the strip.
\<close>

theorem set_brightness_clamps:
  "(255 < level \<longrightarrow> brightness (set_brightness c level) = 255) \<and>
   (level < 0 \<longrightarrow> brightness (set_brightness c level) = 0) \<and>
   (0 \<le> level \<and> level \<le> 255 \<longrightarrow> brightness (set_brightness c level) = level) \<and>
   brightness (set_brightness c level) = max 0 (min 255 level) \<and>
   strip_brightness (strip (set_brightness c level)) = brightness (set_brightness c level) \<and>
   brightness (set_brightness c 300) = 255 \<and>
   brightness (set_brightness c (- 5)) = 0"
  by (simp add: brightness_set_brightness)

theorem set_brightness_clamps_witness:
  "brightness (set_brightness main_controller 300) = 255 \<and>
   brightness (set_brightness main_controller (- 5)) = 0 \<and>
   brightness (set_brightness main_controller 77) = 77"
  using set_brightness_clamps [of 300 main_controller]
    set_brightness_clamps [of "- 5" main_controller]
    set_brightness_clamps [of 77 main_controller]
  by simp

text \<open>
  C5. The brightness scalar of the controller is always in \<open>[0,255]\<close>. Whatever the
  constructor arguments are, a controller that the constructor returns holds a brightness
  in \<open>[0,255]\<close>: for a brightness outside it the strip library raises and there is no
  controller. \<open>set_brightness\<close> and \<open>breathing_effect\<close> leave it in \<open>[0,255]\<close> from any
  state, and every other operation (the pixel writes, \<open>clear\<close>, \<open>show\<close> and the other
  animation routines) keeps it in \<open>[0,255]\<close>.
\<close>

theorem brightness_stays_byte:
  "(WS2812Controller col blank n pin freq dma invert b channel = Inr c0 \<longrightarrow>
      byte (brightness c0)) \<and>
   (\<not> byte b \<longrightarrow>
      WS2812Controller col blank n pin freq dma invert b channel = Inl OverflowError) \<and>
   byte (brightness (set_brightness c level)) \<and>
   byte (brightness (breathing_effect c color cycles)) \<and>
   (byte (brightness c) \<longrightarrow>
      byte (brightness (set_pixel c i color)) \<and>
      byte (brightness (set_all_pixels c color)) \<and>
      byte (brightness (clear c)) \<and>
      byte (brightness (show_strip c)) \<and>
      byte (brightness (color_wipe c color wait_ms)) \<and>
      byte (brightness (theater_chase c color wait_ms iterations)) \<and>
      byte (brightness (rainbow c wait_ms iterations)) \<and>
      byte (brightness (rainbow_cycle c wait_ms iterations)) \<and>
      (random_colors c duration clock rnd = Some c' \<longrightarrow> byte (brightness c')) \<and>
      (police_lights c duration clock = Some c'' \<longrightarrow> byte (brightness c'')))"
proof -
  have "WS2812Controller col blank n pin freq dma invert b channel = Inr c0 \<longrightarrow>
      byte (brightness c0)"
    by (auto simp: WS2812Controller_def PixelStrip_def byte_def split: if_splits)
  moreover have "\<not> byte b \<longrightarrow>
      WS2812Controller col blank n pin freq dma invert b channel = Inl OverflowError"
    by (simp add: WS2812Controller_def PixelStrip_def byte_def)
  moreover have "byte (brightness (breathing_effect c color cycles))"
    by (simp add: brightness_breathing_effect byte_def)
  moreover have "byte (brightness (show_strip c)) \<longleftrightarrow> byte (brightness c)"
    by (simp add: show_strip_def)
  moreover note byte_set_brightness [of c level]
    byte_same_settings [OF same_settings_set_pixel, of c i color]
    byte_same_settings [OF same_settings_set_all_pixels, of c color]
    byte_same_settings [OF same_settings_clear, of c]
    byte_same_settings [OF same_settings_color_wipe, of c color wait_ms]
    byte_same_settings [OF same_settings_theater_chase, of c color wait_ms iterations]
    byte_same_settings [OF same_settings_rainbow, of c wait_ms iterations]
    byte_same_settings [OF same_settings_rainbow_cycle, of c wait_ms iterations]
    byte_same_settings [OF same_settings_random_colors, of c duration clock rnd c']
    byte_same_settings [OF same_settings_police_lights, of c duration clock c'']
  ultimately show ?thesis by blast
qed

theorem brightness_stays_byte_witness:
  "WS2812Controller rpi_Color 0 30 21 800000 10 False 128 0 = Inr main_controller \<and>
   byte (brightness main_controller) \<and>
   \<not> byte 300 \<and>
   WS2812Controller rpi_Color 0 30 21 800000 10 False 300 0 = Inl OverflowError \<and>
   byte (brightness (set_brightness main_controller 300)) \<and>
   byte (brightness (breathing_effect main_controller (255, 100, 100) 2)) \<and>
   byte (brightness (color_wipe main_controller (255, 100, 100) 50)) \<and>
   byte (brightness (theater_chase main_controller (255, 100, 100) 50 3)) \<and>
   random_colors main_controller 3 [100, 100.5, 103.2] (\<lambda>k. int k * 37) \<noteq> None \<and>
   byte (brightness (the (random_colors main_controller 3 [100, 100.5, 103.2] (\<lambda>k. int k * 37)))) \<and>
   police_lights main_controller 3 [100, 100.5, 103.2] = Some (police_round main_controller) \<and>
   byte (brightness (police_round main_controller))"
proof -
  have nb: "\<not> byte 300" by (simp add: byte_def)
  have r: "random_colors main_controller 3 [100, 100.5, 103.2] (\<lambda>k. int k * 37) \<noteq> None"
    by (simp add: random_colors_def split: prod.splits)
  have p: "police_lights main_controller 3 [100, 100.5, 103.2] = Some (police_round main_controller)"
    by (simp add: police_lights_def)
  note built = brightness_stays_byte [where b = 128 and col = rpi_Color and blank = 0
        and n = 30 and pin = 21 and freq = 800000 and dma = 10 and invert = False
        and channel = 0 and c0 = main_controller, THEN conjunct1]
  have bm: "byte (brightness main_controller)"
    using built main_controller_built by simp
  note all = brightness_stays_byte [where b = 300 and col = rpi_Color and blank = 0 and n = 30
        and pin = 21 and freq = 800000 and dma = 10 and invert = False and channel = 0
        and c0 = main_controller
        and c = main_controller and level = 300 and color = "(255, 100, 100)" and cycles = 2
        and i = 0 and wait_ms = 50 and iterations = 3
        and duration = 3 and clock = "[100, 100.5, 103.2]" and rnd = "\<lambda>k. int k * 37"
        and c' = "the (random_colors main_controller 3 [100, 100.5, 103.2] (\<lambda>k. int k * 37))"
        and c'' = "police_round main_controller"]
  from all nb bm r p main_controller_built show ?thesis by auto
qed

text \<open>
  C6. \<open>clear\<close> is \<open>set_all_pixels\<close> with black followed by \<open>show\<close>: from every state both
  give the same controller, buffer and call history alike. After \<open>clear\<close>, on a strip whose
  buffer has one slot per LED, every slot holds the packed colour of \<open>(0,0,0)\<close>.
\<close>

theorem clear_is_set_all_then_show:
  "clear c = show_strip (set_all_pixels c (0, 0, 0)) \<and>
   (strip_fits c \<longrightarrow>
      pixels (strip (clear c)) = replicate (nat (led_count c)) (Color c 0 0 0) \<and>
      (\<forall>i < length (pixels (strip (clear c))). pixels (strip (clear c)) ! i = Color c 0 0 0))"
proof -
  have eq: "clear c = show_strip (set_all_pixels c (0, 0, 0))"
    by (simp add: clear_def show_strip_def Let_def)
  have "pixels (strip (clear c)) = replicate (nat (led_count c)) (Color c 0 0 0)"
    if "strip_fits c"
    using pixels_set_all_pixels [OF that, of 0 0 0]
    by (simp add: eq show_strip_def PixelStrip_show_def)
  then show ?thesis using eq by simp
qed

theorem clear_is_set_all_then_show_witness:
  "strip_fits (color_wipe strip10 (255, 0, 0) 0) \<and>
   clear (color_wipe strip10 (255, 0, 0) 0) =
     show_strip (set_all_pixels (color_wipe strip10 (255, 0, 0) 0) (0, 0, 0)) \<and>
   pixels (strip (clear (color_wipe strip10 (255, 0, 0) 0))) =
     replicate 10 (rpi_Color 0 0 0)"
proof -
  have ev: "evolves strip10 (color_wipe strip10 (255, 0, 0) 0)"
    by (rule evolves_color_wipe)
  then have fits: "strip_fits (color_wipe strip10 (255, 0, 0) 0)"
    by (rule evolves_fits) (rule strip10_facts)
  from ev have lc: "led_count (color_wipe strip10 (255, 0, 0) 0) = 10"
    "Color (color_wipe strip10 (255, 0, 0) 0) = rpi_Color"
    by (simp_all add: evolves_def strip10_facts)
  note all = clear_is_set_all_then_show [of "color_wipe strip10 (255, 0, 0) 0"]
  from all have "clear (color_wipe strip10 (255, 0, 0) 0) =
     show_strip (set_all_pixels (color_wipe strip10 (255, 0, 0) 0) (0, 0, 0))"
    by (rule conjunct1)
  moreover from all [THEN conjunct2] fits lc
  have "pixels (strip (clear (color_wipe strip10 (255, 0, 0) 0))) =
     replicate 10 (rpi_Color 0 0 0)"
    by simp
  ultimately show ?thesis using fits by blast
qed

text \<open>
  C7. On a strip of \<open>N\<close> pixels \<open>color_wipe\<close> leaves every slot of the buffer at the given
  colour and issues, for the indices \<open>0, \<dots>, N-1\<close> in this order, one write followed by one
  \<open>show\<close>: \<open>N\<close> flushes in all. For 10 pixels and red: ten red slots and ten flushes.
\<close>

theorem color_wipe_fills_and_flushes:
  "strip_fits c \<Longrightarrow>
     pixels (strip (color_wipe c (r, g, b) wait_ms)) =
       replicate (nat (led_count c)) (Color c r g b) \<and>
     issued c (color_wipe c (r, g, b) wait_ms) =
       concat (map (\<lambda>i. [SetPixelColor i (Color c r g b), Show]) (py_range (led_count c))) \<and>
     calls (strip (color_wipe c (r, g, b) wait_ms)) =
       calls (strip c) @ issued c (color_wipe c (r, g, b) wait_ms) \<and>
     flushes (issued c (color_wipe c (r, g, b) wait_ms)) = nat (led_count c)"
proof -
  assume fits: "strip_fits c"
  have "issued c (color_wipe c (r, g, b) wait_ms) =
       concat (map (\<lambda>i. [SetPixelColor i (Color c r g b), Show]) (py_range (led_count c)))"
    by (simp add: issued_def color_wipe_result(2) [OF fits])
  moreover have "length (py_range (led_count c)) = nat (led_count c)"
    by (simp add: py_range_def)
  ultimately show ?thesis
    using color_wipe_result [OF fits, of r g b wait_ms]
    by (simp add: flushes_wipe_calls)
qed

theorem color_wipe_fills_and_flushes_witness:
  "strip_fits strip10 \<and>
   pixels (strip (color_wipe strip10 (255, 0, 0) 0)) = replicate 10 (rpi_Color 255 0 0) \<and>
   calls (strip (color_wipe strip10 (255, 0, 0) 0)) =
     concat (map (\<lambda>i. [SetPixelColor i (rpi_Color 255 0 0), Show]) [0, 1, 2, 3, 4, 5, 6, 7, 8, 9]) \<and>
   flushes (calls (strip (color_wipe strip10 (255, 0, 0) 0))) = 10"
proof -
  have r: "py_range 10 = [0, 1, 2, 3, 4, 5, 6, 7, 8, 9]" by code_simp
  from color_wipe_fills_and_flushes [of strip10 255 0 0 0] strip10_facts r
  show ?thesis by (simp add: flushes_def)
qed

text \<open>
  C8. \<open>breathing_effect\<close> does not leave the brightness as it found it: its last statement,
  under the comment "Reset brightness", is \<open>set_brightness(255)\<close>. On the controller that
  \<open>main\<close> builds with brightness 128, the call that \<open>demo_sequence\<close> makes ends with
  brightness 255. (The other routines keep the settings, see the \<open>same_settings\<close> lemmas.)
\<close>

theorem breathing_effect_ends_at_full_brightness:
  "brightness main_controller = 128 \<and>
   brightness (breathing_effect main_controller (255, 100, 100) 2) = 255"
  by (simp add: brightness_breathing_effect main_controller_def WS2812Controller_def
      PixelStrip_def)

text \<open>
  C9. Every write that a controller method issues to the strip has its index in
  \<open>[0, led_count)\<close>. In particular \<open>theater_chase\<close>, whose candidate indices \<open>i + q\<close> reach
  \<open>led_count\<close> and \<open>led_count + 1\<close>, issues in-range writes only, since each goes through the
  guard of \<open>set_pixel\<close>.
\<close>

theorem facade_writes_in_range:
  "evolves c (theater_chase c color wait_ms iterations) \<and>
   writes_in_range (led_count c) (issued c (theater_chase c color wait_ms iterations)) \<and>
   evolves c (set_pixel c i color) \<and>
   evolves c (set_all_pixels c color) \<and>
   evolves c (clear c) \<and>
   evolves c (show_strip c) \<and>
   evolves c (set_brightness c level) \<and>
   evolves c (color_wipe c color wait_ms) \<and>
   evolves c (rainbow c wait_ms iterations) \<and>
   evolves c (rainbow_cycle c wait_ms iterations) \<and>
   evolves c (breathing_effect c color cycles) \<and>
   (random_colors c duration clock rnd = Some c' \<longrightarrow> evolves c c') \<and>
   (police_lights c duration clock = Some c'' \<longrightarrow> evolves c c'')"
proof -
  have "writes_in_range (led_count c) (issued c (theater_chase c color wait_ms iterations))"
    using evolves_theater_chase [of c color wait_ms iterations] by (simp add: evolves_def)
  moreover have "evolves c (show_strip c)"
    unfolding show_strip_def by (rule evolves_show)
  moreover note evolves_theater_chase [of c color wait_ms iterations]
    evolves_set_pixel [of c i color] evolves_set_all_pixels [of c color] evolves_clear [of c]
    evolves_set_brightness [of c level] evolves_color_wipe [of c color wait_ms]
    evolves_rainbow [of c wait_ms iterations] evolves_rainbow_cycle [of c wait_ms iterations]
    evolves_breathing_effect [of c color cycles]
    evolves_random_colors [of c duration clock rnd c']
    evolves_police_lights [of c duration clock c'']
  ultimately show ?thesis by blast
qed

theorem facade_writes_in_range_witness:
  "map (\<lambda>i. i + 1) (range_step 0 (led_count strip10) 3) = [1, 4, 7, led_count strip10] \<and>
   map (\<lambda>i. i + 2) (range_step 0 (led_count strip10) 3) = [2, 5, 8, led_count strip10 + 1] \<and>
   writes_in_range 10 (calls (strip (theater_chase strip10 (255, 0, 0) 50 1))) \<and>
   calls (strip (theater_chase strip10 (255, 0, 0) 50 1)) =
     [SetPixelColor 0 16711680, SetPixelColor 3 16711680,
      SetPixelColor 6 16711680, SetPixelColor 9 16711680, Show,
      SetPixelColor 0 0, SetPixelColor 3 0, SetPixelColor 6 0, SetPixelColor 9 0,
      SetPixelColor 1 16711680, SetPixelColor 4 16711680, SetPixelColor 7 16711680, Show,
      SetPixelColor 1 0, SetPixelColor 4 0, SetPixelColor 7 0,
      SetPixelColor 2 16711680, SetPixelColor 5 16711680, SetPixelColor 8 16711680, Show,
      SetPixelColor 2 0, SetPixelColor 5 0, SetPixelColor 8 0] \<and>
   police_lights strip10 3 [100, 100.5, 103.2] = Some (police_round strip10) \<and>
   writes_in_range 10 (calls (strip (police_round strip10)))"
proof -
  have 1: "map (\<lambda>i. i + 1) (range_step 0 (led_count strip10) 3) = [1, 4, 7, led_count strip10]"
    "map (\<lambda>i. i + 2) (range_step 0 (led_count strip10) 3) = [2, 5, 8, led_count strip10 + 1]"
    by code_simp+
  have 2: "calls (strip (theater_chase strip10 (255, 0, 0) 50 1)) =
     [SetPixelColor 0 16711680, SetPixelColor 3 16711680,
      SetPixelColor 6 16711680, SetPixelColor 9 16711680, Show,
      SetPixelColor 0 0, SetPixelColor 3 0, SetPixelColor 6 0, SetPixelColor 9 0,
      SetPixelColor 1 16711680, SetPixelColor 4 16711680, SetPixelColor 7 16711680, Show,
      SetPixelColor 1 0, SetPixelColor 4 0, SetPixelColor 7 0,
      SetPixelColor 2 16711680, SetPixelColor 5 16711680, SetPixelColor 8 16711680, Show,
      SetPixelColor 2 0, SetPixelColor 5 0, SetPixelColor 8 0]"
    by code_simp
  have 3: "police_lights strip10 3 [100, 100.5, 103.2] = Some (police_round strip10)"
    by (simp add: police_lights_def)
  note all = facade_writes_in_range [where c = strip10 and color = "(255, 0, 0)"
      and wait_ms = 50 and iterations = 1 and i = 0 and level = 0 and cycles = 0
      and duration = 3 and clock = "[100, 100.5, 103.2]" and rnd = "\<lambda>k. 0"
      and c' = strip10 and c'' = "police_round strip10"]
  have "writes_in_range 10 (calls (strip (theater_chase strip10 (255, 0, 0) 50 1)))"
    using all by (simp add: issued_def strip10_facts)
  moreover have "writes_in_range 10 (calls (strip (police_round strip10)))"
    using all 3 by (simp add: evolves_def issued_def strip10_facts)
  ultimately show ?thesis using 1 2 3 by simp
qed


text \<open>
  C10. For every position in \<open>[0,255]\<close> the three channels of \<open>wheel\<close> are in \<open>[0,255]\<close>.
  Every call of \<open>wheel\<close> that \<open>rainbow\<close> and \<open>rainbow_cycle\<close> make passes a position in
  \<open>[0,255]\<close>: the traced routines compute the same controller as the routines themselves,
  the arguments of their \<open>wheel\<close> calls are, frame by frame and pixel by pixel,
  \<open>(i + j) & 255\<close> and \<open>(int(i * 256 / led_count) + j) & 255\<close>, and each of them is in
  \<open>[0,255]\<close>.
\<close>

theorem wheel_channels_bytes:
  "(0 \<le> pos \<and> pos \<le> 255 \<longrightarrow> valid_rgb (wheel pos)) \<and>
   fst (rainbow_traced c wait_ms iterations) = rainbow c wait_ms iterations \<and>
   snd (rainbow_traced c wait_ms iterations) =
     concat (map (\<lambda>j. map (\<lambda>i. (i + j) AND 255) (py_range (led_count c)))
               (py_range (256 * iterations))) \<and>
   list_all byte (snd (rainbow_traced c wait_ms iterations)) \<and>
   list_all (\<lambda>pos. valid_rgb (wheel pos)) (snd (rainbow_traced c wait_ms iterations)) \<and>
   fst (rainbow_cycle_traced c wait_ms iterations) = rainbow_cycle c wait_ms iterations \<and>
   snd (rainbow_cycle_traced c wait_ms iterations) =
     concat (map (\<lambda>j. map (\<lambda>i. (i * 256 div led_count c + j) AND 255) (py_range (led_count c)))
               (py_range (256 * iterations))) \<and>
   list_all byte (snd (rainbow_cycle_traced c wait_ms iterations)) \<and>
   list_all (\<lambda>pos. valid_rgb (wheel pos)) (snd (rainbow_cycle_traced c wait_ms iterations))"
proof -
  have w: "valid_rgb (wheel p)" if "byte p" for p
    using that by (simp add: wheel_def byte_def Let_def)
  have all: "list_all (\<lambda>pos. valid_rgb (wheel pos)) ps" if "list_all byte ps" for ps
    using that w by (simp add: list_all_iff)
  have r: "list_all byte (snd (rainbow_traced c wait_ms iterations))"
    by (simp add: rainbow_traced_eq list_all_byte_positions)
  have rc: "list_all byte (snd (rainbow_cycle_traced c wait_ms iterations))"
    by (simp add: rainbow_cycle_traced_eq list_all_byte_positions)
  have "snd (rainbow_traced c wait_ms iterations) =
     concat (map (\<lambda>j. map (\<lambda>i. (i + j) AND 255) (py_range (led_count c)))
               (py_range (256 * iterations)))"
    by (simp add: rainbow_traced_eq rainbow_pos_def)
  moreover have "snd (rainbow_cycle_traced c wait_ms iterations) =
     concat (map (\<lambda>j. map (\<lambda>i. (i * 256 div led_count c + j) AND 255) (py_range (led_count c)))
               (py_range (256 * iterations)))"
    by (simp add: rainbow_cycle_traced_eq rainbow_cycle_pos_def)
  moreover have "fst (rainbow_traced c wait_ms iterations) = rainbow c wait_ms iterations"
    "fst (rainbow_cycle_traced c wait_ms iterations) = rainbow_cycle c wait_ms iterations"
    by (simp_all add: rainbow_traced_eq rainbow_cycle_traced_eq)
  moreover have "0 \<le> pos \<and> pos \<le> 255 \<longrightarrow> valid_rgb (wheel pos)"
    using w [of pos] by (simp add: byte_def)
  ultimately show ?thesis using r rc all [OF r] all [OF rc] by blast
qed

theorem wheel_channels_bytes_witness:
  "0 \<le> (255::int) \<and> (255::int) \<le> 255 \<and> valid_rgb (wheel 255) \<and>
   fst (rainbow_traced strip10 20 1) = rainbow strip10 20 1 \<and>
   length (snd (rainbow_traced strip10 20 1)) = 2560 \<and>
   snd (rainbow_traced strip10 20 1) ! 2559 = 8 \<and>
   list_all byte (snd (rainbow_traced strip10 20 1)) \<and>
   fst (rainbow_cycle_traced strip10 20 1) = rainbow_cycle strip10 20 1 \<and>
   length (snd (rainbow_cycle_traced strip10 20 1)) = 2560 \<and>
   snd (rainbow_cycle_traced strip10 20 1) ! 2559 = 229 \<and>
   list_all byte (snd (rainbow_cycle_traced strip10 20 1))"
proof -
  have 1: "length (concat (map (\<lambda>j. map (\<lambda>i. (i + j) AND 255) (py_range 10))
               (py_range (256 * 1)))) = 2560"
    "concat (map (\<lambda>j. map (\<lambda>i. (i + j) AND 255) (py_range 10))
               (py_range (256 * 1))) ! 2559 = 8"
    by code_simp+
  have 2: "length (concat (map (\<lambda>j. map (\<lambda>i. (i * 256 div 10 + j) AND 255) (py_range 10))
               (py_range (256 * 1)))) = 2560"
    "concat (map (\<lambda>j. map (\<lambda>i. (i * 256 div 10 + j) AND 255) (py_range 10))
               (py_range (256 * 1))) ! 2559 = 229"
    by code_simp+
  have lc: "led_count strip10 = 10" by (rule strip10_facts(1))
  note all = wheel_channels_bytes [of 255 strip10 20 1, unfolded lc]
  from all have s1: "snd (rainbow_traced strip10 20 1) =
      concat (map (\<lambda>j. map (\<lambda>i. (i + j) AND 255) (py_range 10)) (py_range (256 * 1)))"
    by blast
  from all have s2: "snd (rainbow_cycle_traced strip10 20 1) =
      concat (map (\<lambda>j. map (\<lambda>i. (i * 256 div 10 + j) AND 255) (py_range 10))
                (py_range (256 * 1)))"
    by blast
  have "length (snd (rainbow_traced strip10 20 1)) = 2560"
    "snd (rainbow_traced strip10 20 1) ! 2559 = 8"
    "length (snd (rainbow_cycle_traced strip10 20 1)) = 2560"
    "snd (rainbow_cycle_traced strip10 20 1) ! 2559 = 229"
    by (simp_all only: s1 s2 1 2)
  moreover from all have "valid_rgb (wheel 255)" by simp
  moreover from all have
    "fst (rainbow_traced strip10 20 1) = rainbow strip10 20 1"
    "list_all byte (snd (rainbow_traced strip10 20 1))"
    "fst (rainbow_cycle_traced strip10 20 1) = rainbow_cycle strip10 20 1"
    "list_all byte (snd (rainbow_cycle_traced strip10 20 1))"
    by blast+
  ultimately show ?thesis by simp
qed

end
